theory Spec2Isabelle
  imports Main "HOL-Library.Word"
begin

section \<open>Challenge utilities (utils/challenge.util)\<close>

text \<open>
  A JavaScript \<open>Date\<close> is its time value: the number of milliseconds since the epoch,
  an integer. Every \<open>new Date()\<close> and \<open>Date.now()\<close> of the source is a reading of the
  clock, passed to the model as an argument.
\<close>

type_synonym date = int

definition CHALLENGE_EXPIRY_MINUTES :: int where
  "CHALLENGE_EXPIRY_MINUTES = 5"

subsection \<open>The Date arithmetic of ECMAScript used by \<open>getMinutes\<close> and \<open>setMinutes\<close>\<close>

definition msPerMinute :: int where "msPerMinute = 60000"
definition msPerHour :: int where "msPerHour = 3600000"
definition msPerDay :: int where "msPerDay = 86400000"

definition Day :: "int \<Rightarrow> int" where
  "Day t = t div msPerDay"

definition HourFromTime :: "int \<Rightarrow> int" where
  "HourFromTime t = (t div msPerHour) mod 24"

definition MinFromTime :: "int \<Rightarrow> int" where
  "MinFromTime t = (t div msPerMinute) mod 60"

definition SecFromTime :: "int \<Rightarrow> int" where
  "SecFromTime t = (t div 1000) mod 60"

definition msFromTime :: "int \<Rightarrow> int" where
  "msFromTime t = t mod 1000"

definition MakeTime :: "int \<Rightarrow> int \<Rightarrow> int \<Rightarrow> int \<Rightarrow> int" where
  "MakeTime h m s ms = h * msPerHour + m * msPerMinute + s * 1000 + ms"

definition MakeDate :: "int \<Rightarrow> int \<Rightarrow> int" where
  "MakeDate day time = day * msPerDay + time"

text \<open>
  The server's time zone is ECMAScript's \<open>LocalTZA(t, isUTC)\<close>: the offset of local time
  from UTC in milliseconds, at the UTC instant \<open>t\<close> when \<open>isUTC\<close> holds and at the local
  time value \<open>t\<close> otherwise. It depends on \<open>t\<close>: the offset changes where daylight saving
  begins or ends.
\<close>

type_synonym zone = "int \<Rightarrow> bool \<Rightarrow> int"

definition LocalTime :: "zone \<Rightarrow> date \<Rightarrow> int" where
  "LocalTime LocalTZA t = t + LocalTZA t True"

definition UTC :: "zone \<Rightarrow> int \<Rightarrow> date" where
  "UTC LocalTZA t = t - LocalTZA t False"

definition getMinutes :: "zone \<Rightarrow> date \<Rightarrow> int" where
  "getMinutes LocalTZA d = MinFromTime (LocalTime LocalTZA d)"

definition setMinutes :: "zone \<Rightarrow> date \<Rightarrow> int \<Rightarrow> date" where
  "setMinutes LocalTZA d m =
     (let t = LocalTime LocalTZA d in
      UTC LocalTZA (MakeDate (Day t) (MakeTime (HourFromTime t) m (SecFromTime t) (msFromTime t))))"

subsection \<open>Rendering numbers and bytes\<close>

definition digitChar :: "nat \<Rightarrow> char" where
  "digitChar n = ''0123456789abcdef'' ! n"

fun decimal :: "nat \<Rightarrow> string" where
  "decimal n = (if n < 10 then [digitChar n] else decimal (n div 10) @ [digitChar (n mod 10)])"

declare decimal.simps [simp del]

text \<open>The template literal renders the integer timestamp in decimal.\<close>

definition numberToString :: "int \<Rightarrow> string" where
  "numberToString i = (if i < 0 then CHR ''-'' # decimal (nat (- i)) else decimal (nat i))"

definition hexByte :: "8 word \<Rightarrow> string" where
  "hexByte b = [digitChar (unat b div 16), digitChar (unat b mod 16)]"

text \<open>\<open>Buffer.toString('hex')\<close>: two lower-case hexadecimal digits for each byte.\<close>

definition toHex :: "8 word list \<Rightarrow> string" where
  "toHex bs = concat (map hexByte bs)"

subsection \<open>generateChallenge, getChallengeExpiry, isChallengeExpired\<close>

text \<open>
  The secure random source is the sequence of bytes it delivers to one call;
  \<open>crypto.randomBytes(n)\<close> is a buffer of its first \<open>n\<close> bytes.
\<close>

definition crypto_randomBytes :: "(nat \<Rightarrow> 8 word) \<Rightarrow> nat \<Rightarrow> 8 word list" where
  "crypto_randomBytes random n = map random [0..<n]"

text \<open>\<open>generateChallenge\<close> reads the clock (\<open>timestamp\<close>) and the random source.\<close>

definition generateChallenge :: "date \<Rightarrow> (nat \<Rightarrow> 8 word) \<Rightarrow> string" where
  "generateChallenge timestamp random =
     (let randomBytes = toHex (crypto_randomBytes random 32)
      in ''xelma_auth_'' @ numberToString timestamp @ ''_'' @ randomBytes)"

definition getChallengeExpiry :: "zone \<Rightarrow> date \<Rightarrow> date" where
  "getChallengeExpiry LocalTZA now =
     (let expiry = now in
      setMinutes LocalTZA expiry (getMinutes LocalTZA expiry + CHALLENGE_EXPIRY_MINUTES))"

text \<open>\<open>new Date() > expiresAt\<close>, the clock reading being \<open>now\<close>.\<close>

definition isChallengeExpired :: "date \<Rightarrow> date \<Rightarrow> bool" where
  "isChallengeExpired now expiresAt = (now > expiresAt)"

definition getChallengeExpirySeconds :: int where
  "getChallengeExpirySeconds = CHALLENGE_EXPIRY_MINUTES * 60"

section \<open>The persistent store (the tables reached through the Prisma client)\<close>

text \<open>
  The two tables the routes touch, with the columns the routes read or write. A table is
  the list of its rows in insertion order.
\<close>

record AuthChallenge =
  c_id :: string
  c_challenge :: string
  c_walletAddress :: string
  c_expiresAt :: date
  c_isUsed :: bool
  c_usedAt :: "date option"
  c_userId :: "string option"

record User =
  u_id :: string
  u_walletAddress :: string
  u_publicKey :: string
  u_createdAt :: date
  u_lastLoginAt :: "date option"

record db =
  authChallenges :: "AuthChallenge list"
  users :: "User list"

text \<open>
  The unique columns: \<open>id\<close> and \<open>challenge\<close> of a challenge (the route looks a row up
  with \<open>findUnique\<close> by either), \<open>id\<close> and \<open>walletAddress\<close> of a user.
\<close>

definition db_ok :: "db \<Rightarrow> bool" where
  "db_ok s =
     (distinct (map c_id (authChallenges s)) \<and> distinct (map c_challenge (authChallenges s)) \<and>
      distinct (map u_id (users s)) \<and> distinct (map u_walletAddress (users s)))"

subsection \<open>Client operations; \<open>None\<close> is the exception the client throws\<close>

definition authChallenge_findUnique :: "AuthChallenge list \<Rightarrow> string \<Rightarrow> AuthChallenge option" where
  "authChallenge_findUnique cs tok = find (\<lambda>c. c_challenge c = tok) cs"

definition authChallenge_deleteMany ::
  "AuthChallenge list \<Rightarrow> (AuthChallenge \<Rightarrow> bool) \<Rightarrow> AuthChallenge list" where
  "authChallenge_deleteMany cs wh = filter (\<lambda>c. \<not> wh c) cs"

definition authChallenge_create :: "AuthChallenge list \<Rightarrow> AuthChallenge \<Rightarrow> AuthChallenge list option" where
  "authChallenge_create cs c =
     (if c_id c \<in> set (map c_id cs) \<or> c_challenge c \<in> set (map c_challenge cs) then None
      else Some (cs @ [c]))"

definition authChallenge_delete :: "AuthChallenge list \<Rightarrow> string \<Rightarrow> AuthChallenge list option" where
  "authChallenge_delete cs i =
     (if i \<in> set (map c_id cs) then Some (filter (\<lambda>c. c_id c \<noteq> i) cs) else None)"

definition authChallenge_update ::
  "AuthChallenge list \<Rightarrow> string \<Rightarrow> (AuthChallenge \<Rightarrow> AuthChallenge) \<Rightarrow> AuthChallenge list option" where
  "authChallenge_update cs i f =
     (if i \<in> set (map c_id cs) then Some (map (\<lambda>c. if c_id c = i then f c else c) cs) else None)"

definition user_findUnique :: "User list \<Rightarrow> string \<Rightarrow> User option" where
  "user_findUnique us w = find (\<lambda>u. u_walletAddress u = w) us"

definition user_create :: "User list \<Rightarrow> User \<Rightarrow> (User list \<times> User) option" where
  "user_create us u =
     (if u_id u \<in> set (map u_id us) \<or> u_walletAddress u \<in> set (map u_walletAddress us) then None
      else Some (us @ [u], u))"

definition user_update :: "User list \<Rightarrow> string \<Rightarrow> (User \<Rightarrow> User) \<Rightarrow> (User list \<times> User) option" where
  "user_update us w f =
     (case find (\<lambda>u. u_walletAddress u = w) us of
        None \<Rightarrow> None
      | Some u \<Rightarrow> Some (map (\<lambda>v. if u_walletAddress v = w then f v else v) us, f u))"

section \<open>The routes (routes/auth.routes)\<close>

text \<open>
  The collaborators imported from files outside this development are parameters:
  the address check and the signature check of the Stellar service, and the JWT issuer.
\<close>

record services =
  isValidStellarAddress :: "string \<Rightarrow> bool"
  verifySignature :: "string \<Rightarrow> string \<Rightarrow> string \<Rightarrow> bool"
  generateToken :: "string \<Rightarrow> string \<Rightarrow> string"

text \<open>
  A response is its status and its JSON body. Dates in a body stand for their
  \<open>toISOString()\<close> rendering.
\<close>

datatype body =
  ErrorBody string string
| ChallengeResponse string date
| ConnectResponse string string string date date

type_synonym response = "nat \<times> body"

text \<open>
  A field of the request body may be absent; \<open>!x\<close> holds of an absent field and of the
  empty string.
\<close>

definition falsy :: "string option \<Rightarrow> bool" where
  "falsy x = (case x of None \<Rightarrow> True | Some v \<Rightarrow> v = [])"

subsection \<open>POST /api/auth/challenge\<close>

text \<open>
  What one run of the handler reads from its environment: the clock at the purge, inside
  \<open>generateChallenge\<close> and inside \<open>getChallengeExpiry\<close>, the random source, the time
  zone, and the id the database gives the new row.
\<close>

record challenge_env =
  ce_purgeNow :: date
  ce_timestamp :: date
  ce_random :: "nat \<Rightarrow> 8 word"
  ce_expiryNow :: date
  ce_zone :: zone
  ce_newId :: string

definition internal_challenge :: response where
  "internal_challenge =
     (500, ErrorBody ''Internal Server Error'' ''Failed to generate authentication challenge'')"

text \<open>The housekeeping \<open>deleteMany\<close> of the handler: this wallet's rows with \<open>expiresAt < now\<close>.\<close>

definition purge_expired :: "AuthChallenge list \<Rightarrow> string \<Rightarrow> date \<Rightarrow> AuthChallenge list" where
  "purge_expired cs walletAddress now =
     authChallenge_deleteMany cs (\<lambda>c. c_walletAddress c = walletAddress \<and> c_expiresAt c < now)"

definition post_challenge :: "services \<Rightarrow> challenge_env \<Rightarrow> db \<Rightarrow> string option \<Rightarrow> db \<times> response" where
  "post_challenge srv env s walletAddress =
     (if falsy walletAddress then
        (s, (400, ErrorBody ''Validation Error'' ''walletAddress is required''))
      else if \<not> isValidStellarAddress srv (the walletAddress) then
        (s, (400, ErrorBody ''Validation Error'' ''Invalid Stellar wallet address format''))
      else
        let s1 = s\<lparr>authChallenges := purge_expired (authChallenges s) (the walletAddress) (ce_purgeNow env)\<rparr>;
            challenge = generateChallenge (ce_timestamp env) (ce_random env);
            expiresAt = getChallengeExpiry (ce_zone env) (ce_expiryNow env)
        in case authChallenge_create (authChallenges s1)
                  \<lparr>c_id = ce_newId env, c_challenge = challenge, c_walletAddress = the walletAddress,
                   c_expiresAt = expiresAt, c_isUsed = False, c_usedAt = None, c_userId = None\<rparr> of
             None \<Rightarrow> (s1, internal_challenge)
           | Some cs \<Rightarrow> (s1\<lparr>authChallenges := cs\<rparr>, (200, ChallengeResponse challenge expiresAt)))"

subsection \<open>POST /api/auth/connect\<close>

record ConnectRequestBody =
  walletAddress :: "string option"
  challenge :: "string option"
  signature :: "string option"

text \<open>
  The clock readings of one run, in the order of the source: inside \<open>isChallengeExpired\<close>,
  at \<open>usedAt\<close>, at \<open>now\<close> and at the clean-up; and the id the database gives a new user.
\<close>

record connect_env =
  expiryNow :: date
  usedAtNow :: date
  loginNow :: date
  cleanupNow :: date
  newUserId :: string

definition auth_error :: "string \<Rightarrow> response" where
  "auth_error message = (401, ErrorBody ''Authentication Error'' message)"

definition internal_connect :: response where
  "internal_connect = (500, ErrorBody ''Internal Server Error'' ''Failed to authenticate wallet'')"

text \<open>
  The first part of the handler, up to and including the signature check. It either
  responds, or goes on with the local variables \<open>authChallenge\<close> and \<open>walletAddress\<close>.
\<close>

definition connect_verify ::
  "services \<Rightarrow> date \<Rightarrow> db \<Rightarrow> ConnectRequestBody \<Rightarrow> (db \<times> response) + (AuthChallenge \<times> string)" where
  "connect_verify srv now s req =
     (if falsy (walletAddress req) \<or> falsy (challenge req) \<or> falsy (signature req) then
        Inl (s, (400, ErrorBody ''Validation Error''
                   ''walletAddress, challenge, and signature are required''))
      else if \<not> isValidStellarAddress srv (the (walletAddress req)) then
        Inl (s, (400, ErrorBody ''Validation Error'' ''Invalid Stellar wallet address format''))
      else
        case authChallenge_findUnique (authChallenges s) (the (challenge req)) of
          None \<Rightarrow> Inl (s, auth_error ''Invalid or expired challenge'')
        | Some ac \<Rightarrow>
            if c_walletAddress ac \<noteq> the (walletAddress req) then
              Inl (s, auth_error ''Challenge does not match wallet address'')
            else if isChallengeExpired now (c_expiresAt ac) then
              (case authChallenge_delete (authChallenges s) (c_id ac) of
                 None \<Rightarrow> Inl (s, internal_connect)
               | Some cs \<Rightarrow>
                   Inl (s\<lparr>authChallenges := cs\<rparr>,
                        auth_error ''Challenge has expired. Please request a new one.''))
            else if c_isUsed ac then
              Inl (s, auth_error ''Challenge has already been used'')
            else if \<not> verifySignature srv (the (walletAddress req)) (the (challenge req))
                        (the (signature req)) then
              Inl (s, auth_error ''Invalid signature'')
            else Inr (ac, the (walletAddress req)))"

text \<open>The clean-up \<open>deleteMany\<close>: this wallet's used rows with \<open>usedAt\<close> older than 24 hours.\<close>

definition purge_used :: "AuthChallenge list \<Rightarrow> string \<Rightarrow> date \<Rightarrow> AuthChallenge list" where
  "purge_used cs w now =
     authChallenge_deleteMany cs
       (\<lambda>c. c_walletAddress c = w \<and> c_isUsed c \<and>
            (case c_usedAt c of None \<Rightarrow> False | Some t \<Rightarrow> t < now - 24 * 60 * 60 * 1000))"

text \<open>
  Create or update the user record. \<open>createdAt\<close> is not written by the handler.
  Modelled from the spec: the column default of \<open>createdAt\<close> in the database schema,
  which is not among the sources; the spec has a user created with
  \<open>createdAt = lastLoginAt = now\<close>.
\<close>

definition upsert_user :: "User list \<Rightarrow> string \<Rightarrow> date \<Rightarrow> string \<Rightarrow> (User list \<times> User) option" where
  "upsert_user us w now newId =
     (case user_findUnique us w of
        None \<Rightarrow>
          user_create us \<lparr>u_id = newId, u_walletAddress = w, u_publicKey = w,
                          u_createdAt = now, u_lastLoginAt = Some now\<rparr>
      | Some u \<Rightarrow> user_update us w (\<lambda>v. v\<lparr>u_lastLoginAt := Some now\<rparr>))"

text \<open>The second part of the handler, from the mark-used update to the response.\<close>

definition connect_commit ::
  "services \<Rightarrow> connect_env \<Rightarrow> db \<Rightarrow> AuthChallenge \<Rightarrow> string \<Rightarrow> db \<times> response" where
  "connect_commit srv env s ac w =
     (case authChallenge_update (authChallenges s) (c_id ac)
             (\<lambda>c. c\<lparr>c_isUsed := True, c_usedAt := Some (usedAtNow env)\<rparr>) of
        None \<Rightarrow> (s, internal_connect)
      | Some cs1 \<Rightarrow>
         (let s1 = s\<lparr>authChallenges := cs1\<rparr> in
          case upsert_user (users s1) w (loginNow env) (newUserId env) of
            None \<Rightarrow> (s1, internal_connect)
          | Some (us, u) \<Rightarrow>
             (let s2 = s1\<lparr>users := us\<rparr> in
              case authChallenge_update (authChallenges s2) (c_id ac)
                     (\<lambda>c. c\<lparr>c_userId := Some (u_id u)\<rparr>) of
                None \<Rightarrow> (s2, internal_connect)
              | Some cs2 \<Rightarrow>
                 (let token = generateToken srv (u_id u) (u_walletAddress u);
                      s3 = s2\<lparr>authChallenges := purge_used cs2 w (cleanupNow env)\<rparr>
                  in (s3, (200, ConnectResponse token (u_id u) (u_walletAddress u) (u_createdAt u)
                                  (case u_lastLoginAt u of None \<Rightarrow> loginNow env | Some t \<Rightarrow> t)))))))"

definition post_connect :: "services \<Rightarrow> connect_env \<Rightarrow> db \<Rightarrow> ConnectRequestBody \<Rightarrow> db \<times> response" where
  "post_connect srv env s req =
     (case connect_verify srv (expiryNow env) s req of
        Inl r \<Rightarrow> r
      | Inr (ac, w) \<Rightarrow> connect_commit srv env s ac w)"

subsection \<open>Concurrent requests\<close>

text \<open>
  The handler gives control back to the event loop where it awaits, and another request
  may run there. A request in progress is a task: not yet started, past the awaited
  signature check with its local variables, or answered. A schedule names, step by step,
  the task that runs next and what that run reads from its environment.
\<close>

datatype task =
  Pending ConnectRequestBody
| Verified AuthChallenge string
| Responded response

fun task_step :: "services \<Rightarrow> connect_env \<Rightarrow> db \<Rightarrow> task \<Rightarrow> db \<times> task" where
  "task_step srv env s (Pending req) =
     (case connect_verify srv (expiryNow env) s req of
        Inl (s', r) \<Rightarrow> (s', Responded r)
      | Inr (ac, w) \<Rightarrow> (s, Verified ac w))"
| "task_step srv env s (Verified ac w) =
     (case connect_commit srv env s ac w of (s', r) \<Rightarrow> (s', Responded r))"
| "task_step srv env s (Responded r) = (s, Responded r)"

fun run_schedule ::
  "services \<Rightarrow> (nat \<times> connect_env) list \<Rightarrow> db \<times> task list \<Rightarrow> db \<times> task list" where
  "run_schedule srv [] c = c"
| "run_schedule srv ((i, env) # sch) (s, ts) =
     (if i < length ts
      then (case task_step srv env s (ts ! i) of (s', t) \<Rightarrow> run_schedule srv sch (s', ts[i := t]))
      else run_schedule srv sch (s, ts))"

section \<open>Auxiliary definitions for the proofs\<close>

text \<open>The value of a hexadecimal digit, the inverse of \<open>digitChar\<close> below 16.\<close>

definition digitValue :: "char \<Rightarrow> nat" where
  "digitValue ch = (if of_char ch < (97::nat) then of_char ch - 48 else of_char ch - 87)"

text \<open>The number that a string of decimal digits denotes, the inverse of \<open>decimal\<close>.\<close>

definition decimalValue :: "string \<Rightarrow> nat" where
  "decimalValue cs = foldl (\<lambda>a ch. 10 * a + digitValue ch) 0 cs"

text \<open>The order on last logins: an absent one is before every date.\<close>

definition login_le :: "date option \<Rightarrow> date option \<Rightarrow> bool" where
  "login_le a b = (case a of None \<Rightarrow> True | Some x \<Rightarrow> (case b of None \<Rightarrow> False | Some y \<Rightarrow> x \<le> y))"

text \<open>
  The second user table extends the first: the rows of the first are still there, in place,
  with the same id, wallet address and creation time and a last login that is not earlier.
\<close>

definition users_advance :: "User list \<Rightarrow> User list \<Rightarrow> bool" where
  "users_advance us us' =
     (length us \<le> length us' \<and>
      list_all2 (\<lambda>u u'. u_id u' = u_id u \<and> u_walletAddress u' = u_walletAddress u \<and>
                   u_createdAt u' = u_createdAt u \<and> login_le (u_lastLoginAt u) (u_lastLoginAt u'))
        us (take (length us) us'))"

text \<open>The row that the handler creates for a wallet without a user.\<close>

definition new_user :: "string \<Rightarrow> date \<Rightarrow> string \<Rightarrow> User" where
  "new_user w now newId =
     \<lparr>u_id = newId, u_walletAddress = w, u_publicKey = w, u_createdAt = now,
      u_lastLoginAt = Some now\<rparr>"

text \<open>The update of \<open>lastLoginAt\<close> on the rows of a wallet.\<close>

definition touch_user :: "string \<Rightarrow> date \<Rightarrow> User \<Rightarrow> User" where
  "touch_user w now v = (if u_walletAddress v = w then v\<lparr>u_lastLoginAt := Some now\<rparr> else v)"

text \<open>The two updates of the challenge row with the id \<open>i\<close>.\<close>

definition mark_used :: "string \<Rightarrow> date \<Rightarrow> AuthChallenge \<Rightarrow> AuthChallenge" where
  "mark_used i t c = (if c_id c = i then c\<lparr>c_isUsed := True, c_usedAt := Some t\<rparr> else c)"

definition link_user :: "string \<Rightarrow> string \<Rightarrow> AuthChallenge \<Rightarrow> AuthChallenge" where
  "link_user i uid c = (if c_id c = i then c\<lparr>c_userId := Some uid\<rparr> else c)"

subsection \<open>Example data\<close>

definition example_services :: services where
  "example_services =
     \<lparr>isValidStellarAddress = (\<lambda>a. a = ''GA'' \<or> a = ''GB''),
      verifySignature = (\<lambda>a m sg. sg = a @ '':'' @ m),
      generateToken = (\<lambda>i w. ''jwt.'' @ i @ ''.'' @ w)\<rparr>"

definition example_challenge :: AuthChallenge where
  "example_challenge =
     \<lparr>c_id = ''c1'', c_challenge = ''xelma_auth_1_ab'', c_walletAddress = ''GA'',
      c_expiresAt = 1000, c_isUsed = False, c_usedAt = None, c_userId = None\<rparr>"

definition example_db :: db where
  "example_db = \<lparr>authChallenges = [example_challenge], users = []\<rparr>"

definition example_request :: ConnectRequestBody where
  "example_request =
     \<lparr>walletAddress = Some ''GA'', challenge = Some ''xelma_auth_1_ab'',
      signature = Some ''GA:xelma_auth_1_ab''\<rparr>"

definition example_env :: "date \<Rightarrow> string \<Rightarrow> connect_env" where
  "example_env t i = \<lparr>expiryNow = t, usedAtNow = t, loginNow = t, cleanupNow = t, newUserId = i\<rparr>"

definition example_request_B :: ConnectRequestBody where
  "example_request_B =
     \<lparr>walletAddress = Some ''GB'', challenge = Some ''xelma_auth_1_ab'',
      signature = Some ''GB:xelma_auth_1_ab''\<rparr>"

definition example_used_challenge :: AuthChallenge where
  "example_used_challenge = example_challenge\<lparr>c_isUsed := True, c_usedAt := Some 500\<rparr>"

definition example_challenge_env :: challenge_env where
  "example_challenge_env =
     \<lparr>ce_purgeNow = 2000, ce_timestamp = 2000, ce_random = (\<lambda>i. 7),
      ce_expiryNow = 2000, ce_zone = (\<lambda>t isUTC. 0), ce_newId = ''c2''\<rparr>"

definition example_challenge_B :: AuthChallenge where
  "example_challenge_B =
     \<lparr>c_id = ''c3'', c_challenge = ''xelma_auth_2_cd'', c_walletAddress = ''GB'',
      c_expiresAt = 1000, c_isUsed = False, c_usedAt = None, c_userId = None\<rparr>"

definition example_challenge_fresh :: AuthChallenge where
  "example_challenge_fresh =
     \<lparr>c_id = ''c4'', c_challenge = ''xelma_auth_3_ef'', c_walletAddress = ''GA'',
      c_expiresAt = 5000, c_isUsed = False, c_usedAt = None, c_userId = None\<rparr>"

definition example_db_purge :: db where
  "example_db_purge =
     \<lparr>authChallenges = [example_used_challenge, example_challenge_B, example_challenge_fresh],
      users = []\<rparr>"

definition example_db_after :: db where
  "example_db_after =
     \<lparr>authChallenges =
        [example_challenge\<lparr>c_isUsed := True, c_usedAt := Some 500, c_userId := Some ''u1''\<rparr>],
      users = [new_user ''GA'' 500 ''u1'']\<rparr>"


definition example_db_raced :: db where
  "example_db_raced =
     \<lparr>authChallenges =
        [example_challenge\<lparr>c_isUsed := True, c_usedAt := Some 501, c_userId := Some ''u1''\<rparr>],
      users = [(new_user ''GA'' 500 ''u1'')\<lparr>u_lastLoginAt := Some 501\<rparr>]\<rparr>"

text \<open>
  The offsets of America/New_York around the end of daylight saving on 2026-11-01: four
  hours behind UTC before 06:00:00 UTC, five hours behind from then on; a local time before
  02:00 of that day is read with the offset before the change.
\<close>

definition example_zone_new_york :: zone where
  "example_zone_new_york t isUTC =
     (if isUTC then (if t < 1793512800000 then - 14400000 else - 18000000)
      else (if t < 1793498400000 then - 14400000 else - 18000000))"

definition example_challenge_env_new_york :: challenge_env where
  "example_challenge_env_new_york =
     \<lparr>ce_purgeNow = 1793514600000, ce_timestamp = 1793514600000, ce_random = (\<lambda>i. of_nat i),
      ce_expiryNow = 1793514600000, ce_zone = example_zone_new_york, ce_newId = ''c2''\<rparr>"



section \<open>Lemmas on dates, digits and tables\<close>

lemma find_unique_row:
  "distinct (map f xs) \<Longrightarrow> x \<in> set xs \<Longrightarrow> find (\<lambda>c. f c = f x) xs = Some x"
  by (induction xs) auto

lemma time_fields:
  fixes t :: int
  shows "MakeDate (Day t) (MakeTime (HourFromTime t) (MinFromTime t + k) (SecFromTime t) (msFromTime t))
         = t + k * 60000"
proof -
  define a where "a = t div 1000"
  define b where "b = a div 60"
  define c where "c = b div 60"
  define d where "d = c div 24"
  define r0 where "r0 = t mod 1000"
  define r1 where "r1 = a mod 60"
  define r2 where "r2 = b mod 60"
  define r3 where "r3 = c mod 24"
  have b: "t div 60000 = b"
    using zdiv_zmult2_eq [of 1000 t 60] by (simp add: a_def b_def)
  have c: "t div 3600000 = c"
    using zdiv_zmult2_eq [of 60000 t 60] b by (simp add: c_def)
  have d: "t div 86400000 = d"
    using zdiv_zmult2_eq [of 3600000 t 24] c by (simp add: d_def)
  have e0: "t = 1000 * a + r0" by (simp add: a_def r0_def)
  have e1: "a = 60 * b + r1" by (simp add: b_def r1_def)
  have e2: "b = 60 * c + r2" by (simp add: c_def r2_def)
  have e3: "c = 24 * d + r3" by (simp add: d_def r3_def)
  have "MakeDate (Day t) (MakeTime (HourFromTime t) (MinFromTime t + k) (SecFromTime t) (msFromTime t))
        = d * 86400000 + (r3 * 3600000 + (r2 + k) * 60000 + r1 * 1000 + r0)"
    by (simp add: MakeDate_def MakeTime_def Day_def HourFromTime_def MinFromTime_def
        SecFromTime_def msFromTime_def msPerDay_def msPerHour_def msPerMinute_def
        b c d a_def [symmetric] r0_def r1_def r2_def r3_def)
  also have "\<dots> = t + k * 60000"
    using e0 e1 e2 e3 by (simp add: algebra_simps)
  finally show ?thesis .
qed

lemma getChallengeExpiry_eq:
  "getChallengeExpiry LocalTZA now =
     now + LocalTZA now True + 5 * 60 * 1000 - LocalTZA (now + LocalTZA now True + 5 * 60 * 1000) False"
  using time_fields [of "now + LocalTZA now True" 5]
  by (simp add: getChallengeExpiry_def setMinutes_def getMinutes_def Let_def LocalTime_def UTC_def
      CHALLENGE_EXPIRY_MINUTES_def)

lemma nat_less_16_cases:
  "(a::nat) < 16 \<Longrightarrow> a = 0 \<or> a = 1 \<or> a = 2 \<or> a = 3 \<or> a = 4 \<or> a = 5 \<or> a = 6 \<or> a = 7 \<or>
     a = 8 \<or> a = 9 \<or> a = 10 \<or> a = 11 \<or> a = 12 \<or> a = 13 \<or> a = 14 \<or> a = 15"
  by arith


lemma digitValue_digitChar: "a < 16 \<Longrightarrow> digitValue (digitChar a) = a"
  by (drule nat_less_16_cases) (auto simp: digitValue_def digitChar_def)

lemma digitChar_hex: "a < 16 \<Longrightarrow> digitChar a \<in> set ''0123456789abcdef''"
  by (drule nat_less_16_cases) (auto simp: digitChar_def)


lemma digitChar_dec: "a < 10 \<Longrightarrow> digitChar a \<in> set ''0123456789''"
  using nat_less_16_cases [of a] by (auto simp: digitChar_def)

lemma unat_byte_split: "unat (b :: 8 word) div 16 < 16 \<and> unat b mod 16 < 16"
proof -
  have "unat b < 256" using unsigned_less [of b] by simp
  then show ?thesis by simp
qed

lemma hexByte_inj: "hexByte b = hexByte b' \<Longrightarrow> b = b'"
proof -
  assume h: "hexByte b = hexByte b'"
  from h have "digitValue (digitChar (unat b div 16)) = digitValue (digitChar (unat b' div 16))"
    and "digitValue (digitChar (unat b mod 16)) = digitValue (digitChar (unat b' mod 16))"
    by (simp_all add: hexByte_def)
  then have e: "unat b div 16 = unat b' div 16" "unat b mod 16 = unat b' mod 16"
    using unat_byte_split [of b] unat_byte_split [of b'] by (simp_all add: digitValue_digitChar)
  have "unat b = 16 * (unat b div 16) + unat b mod 16" by simp
  also have "\<dots> = 16 * (unat b' div 16) + unat b' mod 16" by (simp only: e)
  also have "\<dots> = unat b'" by simp
  finally show "b = b'" by (simp add: word_unat_eq_iff)
qed

lemma toHex_inj: "length bs = length bs' \<Longrightarrow> toHex bs = toHex bs' \<Longrightarrow> bs = bs'"
proof (induction bs bs' rule: list_induct2)
  case Nil
  then show ?case by simp
next
  case (Cons x xs y ys)
  from Cons.prems have "hexByte x @ toHex xs = hexByte y @ toHex ys"
    by (simp add: toHex_def)
  moreover have "length (hexByte x) = length (hexByte y)" by (simp add: hexByte_def)
  ultimately have "hexByte x = hexByte y" and "toHex xs = toHex ys" by simp_all
  then show ?case using Cons.IH hexByte_inj by simp
qed

lemma length_toHex: "length (toHex bs) = 2 * length bs"
  by (induction bs) (simp_all add: toHex_def hexByte_def)

lemma set_toHex: "set (toHex bs) \<subseteq> set ''0123456789abcdef''"
proof (induction bs)
  case Nil
  then show ?case by (simp add: toHex_def)
next
  case (Cons b bs)
  have "digitChar (unat b div 16) \<in> set ''0123456789abcdef''"
    and "digitChar (unat b mod 16) \<in> set ''0123456789abcdef''"
    using unat_byte_split [of b] by (simp_all only: digitChar_hex)
  then have "set (hexByte b) \<subseteq> set ''0123456789abcdef''"
    unfolding hexByte_def by simp
  moreover have "toHex (b # bs) = hexByte b @ toHex bs" by (simp add: toHex_def)
  ultimately show ?case using Cons.IH by (simp only: set_append Un_subset_iff)
qed


lemma set_decimal: "set (decimal n) \<subseteq> set ''0123456789''"
proof (induction n rule: decimal.induct)
  case (1 n)
  show ?case
  proof (cases "n < 10")
    case True
    then show ?thesis using digitChar_dec [of n] by (subst decimal.simps) simp
  next
    case False
    have "n mod 10 < 10" by simp
    then have "digitChar (n mod 10) \<in> set ''0123456789''" by (rule digitChar_dec)
    then show ?thesis using False "1.IH" by (subst decimal.simps) simp
  qed
qed

lemma set_numberToString: "set (numberToString ts) \<subseteq> set ''-0123456789''"
proof (cases "ts < 0")
  case True
  then have "set (numberToString ts) = insert CHR ''-'' (set (decimal (nat (- ts))))"
    by (simp add: numberToString_def)
  moreover have "set ''-0123456789'' = insert CHR ''-'' (set ''0123456789'')"
    by (rule list.set(2))
  moreover have "insert CHR ''-'' (set (decimal (nat (- ts)))) \<subseteq> insert CHR ''-'' (set ''0123456789'')"
    by (rule insert_mono [OF set_decimal])
  ultimately show ?thesis by (simp only:)
next
  case False
  then have "numberToString ts = decimal (nat ts)" by (simp add: numberToString_def)
  moreover have "set ''0123456789'' \<subseteq> set ''-0123456789''" by (rule set_subset_Cons)
  ultimately show ?thesis using set_decimal [of "nat ts"] by (simp only: order_trans)
qed

lemma example_lookup:
  "authChallenge_findUnique (authChallenges example_db) ''xelma_auth_1_ab'' = Some example_challenge"
  by (simp add: example_db_def example_challenge_def authChallenge_findUnique_def)

lemma unique_token_row:
  "distinct (map c_challenge cs) \<Longrightarrow> ac \<in> set cs \<Longrightarrow> c \<in> set cs \<Longrightarrow>
   c_challenge c = c_challenge ac \<Longrightarrow> c = ac"
  by (meson distinct_map inj_on_def)

lemma findUnique_stored:
  "db_ok s \<Longrightarrow> ac \<in> set (authChallenges s) \<Longrightarrow>
   authChallenge_findUnique (authChallenges s) (c_challenge ac) = Some ac"
  unfolding authChallenge_findUnique_def db_ok_def
  using find_unique_row [of c_challenge "authChallenges s" ac] by simp

lemma delete_stored:
  "ac \<in> set cs \<Longrightarrow>
   authChallenge_delete cs (c_id ac) = Some (filter (\<lambda>c. c_id c \<noteq> c_id ac) cs)"
  by (simp add: authChallenge_delete_def)

lemma findUnique_after_delete:
  assumes "distinct (map c_challenge cs)" "ac \<in> set cs"
  shows "authChallenge_findUnique (filter (\<lambda>c. c_id c \<noteq> c_id ac) cs) (c_challenge ac) = None"
proof -
  have "\<And>c. c \<in> set cs \<Longrightarrow> c_challenge c = c_challenge ac \<Longrightarrow> c_id c = c_id ac"
    using unique_token_row [OF assms] by blast
  then show ?thesis
    by (auto simp: authChallenge_findUnique_def find_None_iff)
qed

lemma example_db_ok: "db_ok example_db"
  by (simp add: db_ok_def example_db_def)

lemma example_stored: "example_challenge \<in> set (authChallenges example_db)"
  by (simp add: example_db_def)

lemma purge_expired_filter:
  "purge_expired cs w now = filter (\<lambda>c. c_walletAddress c \<noteq> w \<or> now \<le> c_expiresAt c) cs"
  by (auto simp: purge_expired_def authChallenge_deleteMany_def intro: filter_cong)

section \<open>Lemmas on the handlers\<close>

lemma login_le_refl: "login_le a a"
  by (simp add: login_le_def split: option.splits)

lemma users_advance_refl: "users_advance us us"
  by (simp add: users_advance_def list_all2_same login_le_refl)

lemma find_SomeD: "find P xs = Some x \<Longrightarrow> P x \<and> x \<in> set xs"
  by (induction xs) (auto split: if_splits)


lemma upsert_user_shape:
  assumes "upsert_user us w now newId = Some (us', u)"
  shows "(case user_findUnique us w of
            None \<Rightarrow> us' = us @ [new_user w now newId] \<and> u = new_user w now newId \<and>
                    newId \<notin> set (map u_id us) \<and> w \<notin> set (map u_walletAddress us)
          | Some u0 \<Rightarrow> us' = map (touch_user w now) us \<and> u = u0\<lparr>u_lastLoginAt := Some now\<rparr> \<and>
                    u_walletAddress u0 = w \<and> u0 \<in> set us)"
proof (cases "user_findUnique us w")
  case None
  then show ?thesis
    using assms
    by (auto simp: upsert_user_def user_create_def new_user_def split: if_splits)
next
  case (Some u0)
  then have f: "find (\<lambda>u. u_walletAddress u = w) us = Some u0"
    by (simp add: user_findUnique_def)
  have "(\<lambda>v. if u_walletAddress v = w then v\<lparr>u_lastLoginAt := Some now\<rparr> else v)
        = touch_user w now"
    by (simp add: touch_user_def fun_eq_iff)
  then show ?thesis
    using assms Some f find_SomeD [OF f]
    by (auto simp: upsert_user_def user_update_def)
qed

lemma map_touch_id: "u_id \<circ> touch_user w now = u_id"
  by (simp add: fun_eq_iff touch_user_def)

lemma map_touch_wallet: "u_walletAddress \<circ> touch_user w now = u_walletAddress"
  by (simp add: fun_eq_iff touch_user_def)




lemma upsert_user_distinct:
  assumes "upsert_user us w now newId = Some (us', u)"
    and "distinct (map u_id us)" and "distinct (map u_walletAddress us)"
  shows "distinct (map u_id us') \<and> distinct (map u_walletAddress us')"
  using upsert_user_shape [OF assms(1)] assms(2,3)
  by (auto simp: map_touch_id map_touch_wallet new_user_def split: option.splits)



lemma authChallenge_update_mark:
  "authChallenge_update cs i (\<lambda>c. c\<lparr>c_isUsed := True, c_usedAt := Some t\<rparr>) =
     (if i \<in> set (map c_id cs) then Some (map (mark_used i t) cs) else None)"
  by (simp add: authChallenge_update_def mark_used_def fun_eq_iff)

lemma authChallenge_update_link:
  "authChallenge_update cs i (\<lambda>c. c\<lparr>c_userId := Some uid\<rparr>) =
     (if i \<in> set (map c_id cs) then Some (map (link_user i uid) cs) else None)"
  by (simp add: authChallenge_update_def link_user_def fun_eq_iff)

lemma mark_used_keys: "c_id \<circ> mark_used i t = c_id" "c_challenge \<circ> mark_used i t = c_challenge"
  "c_walletAddress \<circ> mark_used i t = c_walletAddress"
  by (simp_all add: fun_eq_iff mark_used_def)

lemma link_user_keys: "c_id \<circ> link_user i uid = c_id" "c_challenge \<circ> link_user i uid = c_challenge"
  "c_walletAddress \<circ> link_user i uid = c_walletAddress"
  by (simp_all add: fun_eq_iff link_user_def)

lemma mark_used_sel: "c_id (mark_used i t c) = c_id c" "c_challenge (mark_used i t c) = c_challenge c"
  "c_walletAddress (mark_used i t c) = c_walletAddress c"
  by (simp_all add: mark_used_def)

lemma link_user_sel: "c_id (link_user i uid c) = c_id c" "c_challenge (link_user i uid c) = c_challenge c"
  "c_walletAddress (link_user i uid c) = c_walletAddress c" "c_isUsed (link_user i uid c) = c_isUsed c"
  "c_usedAt (link_user i uid c) = c_usedAt c"
  by (simp_all add: link_user_def)

lemma connect_commit_eq:
  "connect_commit srv env s ac w =
     (if c_id ac \<notin> set (map c_id (authChallenges s)) then (s, internal_connect)
      else case upsert_user (users s) w (loginNow env) (newUserId env) of
        None \<Rightarrow>
          (s\<lparr>authChallenges := map (mark_used (c_id ac) (usedAtNow env)) (authChallenges s)\<rparr>,
           internal_connect)
      | Some (us, u) \<Rightarrow>
          (s\<lparr>authChallenges :=
                purge_used (map (link_user (c_id ac) (u_id u))
                              (map (mark_used (c_id ac) (usedAtNow env)) (authChallenges s)))
                  w (cleanupNow env),
              users := us\<rparr>,
           (200, ConnectResponse (generateToken srv (u_id u) (u_walletAddress u)) (u_id u)
                   (u_walletAddress u) (u_createdAt u)
                   (case u_lastLoginAt u of None \<Rightarrow> loginNow env | Some t \<Rightarrow> t))))"
  unfolding connect_commit_def authChallenge_update_mark authChallenge_update_link Let_def
  by (simp add: mark_used_sel split: option.splits prod.splits)

lemma connect_commit_success:
  assumes "connect_commit srv env s ac w = (s', r)" and "fst r = 200"
  shows "\<exists>us u. upsert_user (users s) w (loginNow env) (newUserId env) = Some (us, u) \<and>
           c_id ac \<in> set (map c_id (authChallenges s)) \<and>
           s' = s\<lparr>authChallenges :=
                    purge_used (map (link_user (c_id ac) (u_id u))
                                  (map (mark_used (c_id ac) (usedAtNow env)) (authChallenges s)))
                      w (cleanupNow env),
                  users := us\<rparr> \<and>
           r = (200, ConnectResponse (generateToken srv (u_id u) (u_walletAddress u)) (u_id u)
                       (u_walletAddress u) (u_createdAt u)
                       (case u_lastLoginAt u of None \<Rightarrow> loginNow env | Some t \<Rightarrow> t))"
proof (cases "c_id ac \<in> set (map c_id (authChallenges s))")
  case False
  then have "r = internal_connect" using assms(1) by (simp add: connect_commit_eq)
  then show ?thesis using assms(2) by (simp add: internal_connect_def)
next
  case True
  show ?thesis
  proof (cases "upsert_user (users s) w (loginNow env) (newUserId env)")
    case None
    then have "r = internal_connect" using assms(1) True by (simp add: connect_commit_eq)
    then show ?thesis using assms(2) by (simp add: internal_connect_def)
  next
    case (Some p)
    obtain us u where p: "p = (us, u)" by (cases p)
    show ?thesis
      using assms(1) True Some unfolding p connect_commit_eq
      by (intro exI [of _ us] exI [of _ u]) auto
  qed
qed

lemma purge_used_filter:
  "purge_used cs w now = filter (\<lambda>c. \<not> (c_walletAddress c = w \<and> c_isUsed c \<and>
       (case c_usedAt c of None \<Rightarrow> False | Some t \<Rightarrow> t < now - 24 * 60 * 60 * 1000))) cs"
  by (simp add: purge_used_def authChallenge_deleteMany_def)

lemma connect_commit_any:
  assumes "connect_commit srv env s ac w = (s', r)"
  shows "(users s' = users s \<or>
          (\<exists>u. upsert_user (users s) w (loginNow env) (newUserId env) = Some (users s', u))) \<and>
         (\<exists>g P. authChallenges s' = filter P (map g (authChallenges s)) \<and>
                c_id \<circ> g = c_id \<and> c_challenge \<circ> g = c_challenge)"
proof -
  let ?m = "mark_used (c_id ac) (usedAtNow env)"
  let ?cs = "authChallenges s"
  have i: "c_id \<circ> id = c_id" "c_challenge \<circ> id = c_challenge" by simp_all
  show ?thesis
  proof (cases "c_id ac \<in> set (map c_id ?cs)")
    case False
    then have "s' = s" using assms by (simp add: connect_commit_eq)
    moreover have "?cs = filter (\<lambda>_. True) (map id ?cs)" by simp
    ultimately show ?thesis using i by blast
  next
    case True
    show ?thesis
    proof (cases "upsert_user (users s) w (loginNow env) (newUserId env)")
      case None
      then have "s' = s\<lparr>authChallenges := map ?m ?cs\<rparr>"
        using assms True by (simp add: connect_commit_eq)
      then have "users s' = users s" and "authChallenges s' = filter (\<lambda>_. True) (map ?m ?cs)"
        by simp_all
      then show ?thesis using mark_used_keys(1,2) by blast
    next
      case (Some p)
      obtain us u where p: "p = (us, u)" by (cases p)
      let ?g = "link_user (c_id ac) (u_id u) \<circ> ?m"
      have g: "c_id \<circ> ?g = c_id" "c_challenge \<circ> ?g = c_challenge"
        by (simp_all add: fun_eq_iff link_user_def mark_used_def)
      have "s' = s\<lparr>authChallenges := purge_used (map (link_user (c_id ac) (u_id u)) (map ?m ?cs))
                       w (cleanupNow env), users := us\<rparr>"
        using assms True Some unfolding p connect_commit_eq by simp
      then have "users s' = us" and
        "authChallenges s' = filter (\<lambda>c. \<not> (c_walletAddress c = w \<and> c_isUsed c \<and>
            (case c_usedAt c of None \<Rightarrow> False | Some t \<Rightarrow> t < cleanupNow env - 24 * 60 * 60 * 1000)))
          (map ?g ?cs)"
        by (simp_all add: purge_used_filter)
      then show ?thesis using g Some p by blast
    qed
  qed
qed

lemma connect_verify_Inr:
  assumes "connect_verify srv now s req = Inr (ac, w)"
  shows "\<exists>tok sg. walletAddress req = Some w \<and> challenge req = Some tok \<and> signature req = Some sg \<and>
           w \<noteq> [] \<and> tok \<noteq> [] \<and> sg \<noteq> [] \<and> isValidStellarAddress srv w \<and>
           authChallenge_findUnique (authChallenges s) tok = Some ac \<and> c_walletAddress ac = w \<and>
           \<not> isChallengeExpired now (c_expiresAt ac) \<and> \<not> c_isUsed ac \<and>
           verifySignature srv w tok sg"
proof -
  from assms have nf: "\<not> falsy (walletAddress req)" "\<not> falsy (challenge req)" "\<not> falsy (signature req)"
    by (auto simp: connect_verify_def split: if_splits)
  then obtain w' tok sg where r: "walletAddress req = Some w'" "challenge req = Some tok"
    "signature req = Some sg" "w' \<noteq> []" "tok \<noteq> []" "sg \<noteq> []"
    by (auto simp: falsy_def split: option.splits)
  from assms nf r show ?thesis
    by (auto simp: connect_verify_def split: if_splits option.splits)
qed

lemma connect_verify_Inl:
  assumes "connect_verify srv now s req = Inl (s', r)"
  shows "fst r \<noteq> 200 \<and> users s' = users s \<and>
         (\<exists>P. authChallenges s' = filter P (authChallenges s))"
proof -
  have t: "authChallenges s = filter (\<lambda>_. True) (authChallenges s)" by simp
  have "fst r \<noteq> 200 \<and> users s' = users s \<and>
     (s' = s \<or> (\<exists>i. authChallenges s' = filter (\<lambda>c. c_id c \<noteq> i) (authChallenges s)))"
    using assms
    by (auto simp: connect_verify_def auth_error_def internal_connect_def authChallenge_delete_def
        split: if_splits option.splits)
  then show ?thesis using t by metis
qed

lemma post_connect_success:
  assumes "post_connect srv env s req = (s', r)" and "fst r = 200"
  shows "\<exists>ac w. connect_verify srv (expiryNow env) s req = Inr (ac, w) \<and>
           connect_commit srv env s ac w = (s', r)"
proof (cases "connect_verify srv (expiryNow env) s req")
  case (Inl a)
  obtain s0 r0 where a: "a = (s0, r0)" by (cases a)
  from Inl a assms(1) have "r0 = r" by (simp add: post_connect_def)
  then show ?thesis using connect_verify_Inl [OF Inl [unfolded a]] assms(2) by simp
next
  case (Inr p)
  obtain ac w where p: "p = (ac, w)" by (cases p)
  show ?thesis using Inr assms(1) unfolding p by (simp add: post_connect_def)
qed

lemma keys_filter_map:
  assumes "c_id \<circ> g = c_id" and "c_challenge \<circ> g = c_challenge"
    and "distinct (map c_id cs)" and "distinct (map c_challenge cs)"
  shows "distinct (map c_id (filter P (map g cs))) \<and> distinct (map c_challenge (filter P (map g cs)))"
proof -
  have "map c_id (map g cs) = map c_id cs" "map c_challenge (map g cs) = map c_challenge cs"
    by (simp_all only: map_map assms(1,2))
  then have "distinct (map c_id (map g cs))" "distinct (map c_challenge (map g cs))"
    using assms(3,4) by (simp_all only:)
  then show ?thesis using distinct_map_filter by blast
qed

lemma connect_commit_db_ok:
  assumes "connect_commit srv env s ac w = (s', r)" and "db_ok s"
  shows "db_ok s'"
proof -
  from connect_commit_any [OF assms(1)] obtain g P where
    u: "users s' = users s \<or>
        (\<exists>u. upsert_user (users s) w (loginNow env) (newUserId env) = Some (users s', u))"
    and c: "authChallenges s' = filter P (map g (authChallenges s))"
      "c_id \<circ> g = c_id" "c_challenge \<circ> g = c_challenge"
    by blast
  have "distinct (map u_id (users s')) \<and> distinct (map u_walletAddress (users s'))"
    using u assms(2) upsert_user_distinct unfolding db_ok_def by metis
  moreover have "distinct (map c_id (authChallenges s')) \<and> distinct (map c_challenge (authChallenges s'))"
    unfolding c(1) using keys_filter_map [OF c(2,3)] assms(2) unfolding db_ok_def by blast
  ultimately show ?thesis by (simp add: db_ok_def)
qed

lemma connect_verify_db_ok:
  assumes "connect_verify srv now s req = Inl (s', r)" and "db_ok s"
  shows "db_ok s'"
proof -
  from connect_verify_Inl [OF assms(1)] obtain P where
    "users s' = users s" "authChallenges s' = filter P (authChallenges s)" by blast
  then show ?thesis using assms(2) by (simp add: db_ok_def distinct_map_filter)
qed

lemma post_connect_db_ok:
  assumes "db_ok s"
  shows "db_ok (fst (post_connect srv env s req))"
proof (cases "connect_verify srv (expiryNow env) s req")
  case (Inl a)
  obtain s0 r0 where a: "a = (s0, r0)" by (cases a)
  show ?thesis
    using connect_verify_db_ok [OF Inl [unfolded a] assms] Inl a by (simp add: post_connect_def)
next
  case (Inr p)
  obtain ac w where p: "p = (ac, w)" by (cases p)
  obtain s1 r1 where c: "connect_commit srv env s ac w = (s1, r1)" by (cases "connect_commit srv env s ac w")
  show ?thesis
    using connect_commit_db_ok [OF c assms] Inr p c by (simp add: post_connect_def)
qed

lemma find_append_None: "find P xs = None \<Longrightarrow> find P (xs @ ys) = find P ys"
  by (induction xs) (auto split: if_splits)

lemma find_touch:
  "find (\<lambda>u. u_walletAddress u = w) (map (touch_user w now) us)
   = map_option (touch_user w now) (find (\<lambda>u. u_walletAddress u = w) us)"
  by (induction us) (auto simp: touch_user_def)

lemma upsert_user_find:
  assumes "upsert_user us w now newId = Some (us', u)"
  shows "user_findUnique us' w = Some u \<and> u_walletAddress u = w \<and> u_lastLoginAt u = Some now \<and>
         u_id u = (case user_findUnique us w of None \<Rightarrow> newId | Some u0 \<Rightarrow> u_id u0)"
proof (cases "user_findUnique us w")
  case None
  then have s: "us' = us @ [new_user w now newId]" "u = new_user w now newId"
    using upsert_user_shape [OF assms] by simp_all
  have "find (\<lambda>u. u_walletAddress u = w) (us @ [new_user w now newId]) = Some (new_user w now newId)"
    using None find_append_None [of "\<lambda>u. u_walletAddress u = w" us "[new_user w now newId]"]
    by (simp add: user_findUnique_def new_user_def)
  then show ?thesis using None s by (simp add: user_findUnique_def new_user_def)
next
  case (Some u0)
  then have s: "us' = map (touch_user w now) us" "u = u0\<lparr>u_lastLoginAt := Some now\<rparr>"
    "u_walletAddress u0 = w"
    using upsert_user_shape [OF assms] by simp_all
  have "user_findUnique us' w = Some (touch_user w now u0)"
    using Some unfolding s(1) user_findUnique_def find_touch by simp
  then show ?thesis using Some s by (simp add: touch_user_def)
qed

lemma example_verify:
  "connect_verify example_services 500 example_db example_request = Inr (example_challenge, ''GA'')"
  using example_lookup
  by (simp add: connect_verify_def falsy_def example_request_def example_services_def
      isChallengeExpired_def example_challenge_def)

lemma example_upsert:
  "upsert_user [] ''GA'' 500 ''u1'' = Some ([new_user ''GA'' 500 ''u1''], new_user ''GA'' 500 ''u1'')"
  by (simp add: upsert_user_def user_findUnique_def user_create_def new_user_def)

lemma example_commit:
  "connect_commit example_services (example_env 500 ''u1'') example_db example_challenge ''GA''
   = (example_db_after, (200, ConnectResponse ''jwt.u1.GA'' ''u1'' ''GA'' 500 500))"
  unfolding connect_commit_eq
  by (simp add: example_db_def example_env_def example_upsert example_db_after_def new_user_def
      purge_used_filter mark_used_def link_user_def example_challenge_def example_services_def)

lemma example_connect:
  "post_connect example_services (example_env 500 ''u1'') example_db example_request
   = (example_db_after, (200, ConnectResponse ''jwt.u1.GA'' ''u1'' ''GA'' 500 500))"
  using example_verify example_commit by (simp add: post_connect_def example_env_def)



lemma connect_verify_used:
  assumes "walletAddress req = Some w" and "challenge req = Some tok" and "signature req = Some sg"
    and "w \<noteq> []" and "tok \<noteq> []" and "sg \<noteq> []" and "isValidStellarAddress srv w"
    and "authChallenge_findUnique (authChallenges s) tok = Some c"
    and "c_walletAddress c = w" and "c_isUsed c"
  shows "connect_verify srv now s req =
           (if isChallengeExpired now (c_expiresAt c)
            then Inl (s\<lparr>authChallenges := filter (\<lambda>x. c_id x \<noteq> c_id c) (authChallenges s)\<rparr>,
                      auth_error ''Challenge has expired. Please request a new one.'')
            else Inl (s, auth_error ''Challenge has already been used''))"
proof -
  have "c \<in> set (authChallenges s)"
    using assms(8) find_SomeD unfolding authChallenge_findUnique_def by fastforce
  then have "authChallenge_delete (authChallenges s) (c_id c)
             = Some (filter (\<lambda>x. c_id x \<noteq> c_id c) (authChallenges s))"
    by (rule delete_stored)
  then show ?thesis
    using assms by (simp add: connect_verify_def falsy_def)
qed

lemma connect_verify_absent:
  assumes "walletAddress req = Some w" and "challenge req = Some tok" and "signature req = Some sg"
    and "w \<noteq> []" and "tok \<noteq> []" and "sg \<noteq> []" and "isValidStellarAddress srv w"
    and "authChallenge_findUnique (authChallenges s) tok = None"
  shows "connect_verify srv now s req = Inl (s, auth_error ''Invalid or expired challenge'')"
  using assms by (simp add: connect_verify_def falsy_def)

lemma example_verify_at:
  "t \<le> 1000 \<Longrightarrow>
   connect_verify example_services t \<lparr>authChallenges = [example_challenge], users = users'\<rparr>
     example_request = Inr (example_challenge, ''GA'')"
  by (simp add: connect_verify_def falsy_def example_request_def example_services_def
      isChallengeExpired_def example_challenge_def authChallenge_findUnique_def)

lemma example_upsert_returning:
  "upsert_user [new_user ''GA'' t0 ''u1''] ''GA'' t i
   = Some ([(new_user ''GA'' t0 ''u1'')\<lparr>u_lastLoginAt := Some t\<rparr>],
           (new_user ''GA'' t0 ''u1'')\<lparr>u_lastLoginAt := Some t\<rparr>)"
  by (simp add: upsert_user_def user_findUnique_def user_update_def new_user_def)


lemma example_commit_raced:
  "connect_commit example_services (example_env 501 ''u2'') example_db_after example_challenge ''GA''
   = (example_db_raced, (200, ConnectResponse ''jwt.u1.GA'' ''u1'' ''GA'' 500 501))"
  unfolding connect_commit_eq
  by (simp add: example_db_after_def example_env_def example_upsert_returning
      purge_used_filter mark_used_def link_user_def example_db_raced_def)
    (simp add: new_user_def example_challenge_def example_services_def)

lemma post_connect_two_steps:
  "run_schedule srv [(0, env), (0, env)] (s, [Pending req])
   = (fst (post_connect srv env s req), [Responded (snd (post_connect srv env s req))])"
  by (auto simp: post_connect_def split: sum.splits prod.splits)

lemma getChallengeExpiry_fixed_offset:
  "getChallengeExpiry (\<lambda>t isUTC. offset) now = now + 5 * 60 * 1000"
  by (simp add: getChallengeExpiry_eq)

lemma decimalValue_decimal: "decimalValue (decimal n) = n"
proof (induction n rule: decimal.induct)
  case (1 n)
  show ?case
  proof (cases "n < 10")
    case True
    then have "digitValue (digitChar n) = n" by (simp add: digitValue_digitChar)
    then show ?thesis using True by (subst decimal.simps) (simp add: decimalValue_def)
  next
    case False
    have "n mod 10 < 16" using mod_less_divisor [of 10 n] by linarith
    then have d: "digitValue (digitChar (n mod 10)) = n mod 10" by (rule digitValue_digitChar)
    have "decimalValue (decimal n) = 10 * decimalValue (decimal (n div 10)) + digitValue (digitChar (n mod 10))"
      using False by (subst decimal.simps) (simp add: decimalValue_def)
    then show ?thesis using "1.IH" [OF False] d by simp
  qed
qed

lemma decimal_inj: "decimal m = decimal n \<Longrightarrow> m = n"
proof -
  assume "decimal m = decimal n"
  then have "decimalValue (decimal m) = decimalValue (decimal n)" by simp
  then show "m = n" by (simp only: decimalValue_decimal)
qed

lemma minus_not_decimal: "decimal n \<noteq> CHR ''-'' # cs"
proof
  assume "decimal n = CHR ''-'' # cs"
  then have "CHR ''-'' \<in> set (decimal n)" by simp
  then have "CHR ''-'' \<in> set ''0123456789''" using set_decimal by blast
  then show False by simp
qed

lemma numberToString_inj: "numberToString i = numberToString j \<Longrightarrow> i = j"
proof -
  assume e: "numberToString i = numberToString j"
  consider "i < 0" "j < 0" | "i < 0" "\<not> j < 0" | "\<not> i < 0" "j < 0" | "\<not> i < 0" "\<not> j < 0"
    by blast
  then show "i = j"
  proof cases
    case 1
    then have "decimal (nat (- i)) = decimal (nat (- j))" using e by (simp add: numberToString_def)
    then have "nat (- i) = nat (- j)" by (rule decimal_inj)
    then show ?thesis using 1 by simp
  next
    case 2
    then show ?thesis using e minus_not_decimal [of "nat j" "decimal (nat (- i))"]
      by (simp add: numberToString_def)
  next
    case 3
    then show ?thesis using e minus_not_decimal [of "nat i" "decimal (nat (- j))"]
      by (simp add: numberToString_def)
  next
    case 4
    then have "decimal (nat i) = decimal (nat j)" using e by (simp add: numberToString_def)
    then have "nat i = nat j" by (rule decimal_inj)
    then show ?thesis using 4 by simp
  qed
qed

lemma length_crypto_randomBytes: "length (crypto_randomBytes random n) = n"
  by (simp add: crypto_randomBytes_def)

lemma generateChallenge_hex:
  "length (toHex (crypto_randomBytes random 32)) = 64"
  by (simp add: length_toHex length_crypto_randomBytes)

lemma generateChallenge_eq_iff:
  "generateChallenge ts random = generateChallenge ts' random' \<longleftrightarrow>
     ts = ts' \<and> crypto_randomBytes random 32 = crypto_randomBytes random' 32"
proof
  assume e: "generateChallenge ts random = generateChallenge ts' random'"
  let ?h = "toHex (crypto_randomBytes random 32)" and ?h' = "toHex (crypto_randomBytes random' 32)"
  have l: "length ?h = length ?h'" by (simp only: generateChallenge_hex)
  have "(''xelma_auth_'' @ numberToString ts @ ''_'') @ ?h
        = (''xelma_auth_'' @ numberToString ts' @ ''_'') @ ?h'"
    using e unfolding generateChallenge_def Let_def by (simp only: append_assoc)
  then have "''xelma_auth_'' @ numberToString ts @ ''_'' = ''xelma_auth_'' @ numberToString ts' @ ''_''
      \<and> ?h = ?h'"
    by (simp only: append_eq_append_conv [OF disjI2, OF l])
  then have p: "''xelma_auth_'' @ numberToString ts @ ''_'' = ''xelma_auth_'' @ numberToString ts' @ ''_''"
    and h: "?h = ?h'"
    by (rule conjunct1, rule conjunct2)
  from p have "numberToString ts @ ''_'' = numberToString ts' @ ''_''"
    by (simp only: same_append_eq)
  then have "numberToString ts = numberToString ts'" by (simp only: append_same_eq)
  then have "ts = ts'" by (rule numberToString_inj)
  moreover have "crypto_randomBytes random 32 = crypto_randomBytes random' 32"
    using h toHex_inj [of "crypto_randomBytes random 32" "crypto_randomBytes random' 32"]
    by (simp add: length_crypto_randomBytes)
  ultimately show "ts = ts' \<and> crypto_randomBytes random 32 = crypto_randomBytes random' 32" by simp
next
  assume "ts = ts' \<and> crypto_randomBytes random 32 = crypto_randomBytes random' 32"
  then show "generateChallenge ts random = generateChallenge ts' random'"
    unfolding generateChallenge_def by (simp only:)
qed

lemma upt_32: "[0..<32] = [0,1,2,3,4,5,6,7,8,9,10,11,12,13,14,15,16,17,18,19,20,21,22,23,24,25,26,27,28,29,30,31]"
  by (simp add: upt_rec)

lemma example_token:
  "generateChallenge 1793514600000 (\<lambda>i. of_nat i)
   = ''xelma_auth_1793514600000_000102030405060708090a0b0c0d0e0f101112131415161718191a1b1c1d1e1f''"
proof -
  have "toHex (crypto_randomBytes (\<lambda>i. of_nat i) 32)
     = ''000102030405060708090a0b0c0d0e0f101112131415161718191a1b1c1d1e1f''"
    by (simp add: crypto_randomBytes_def upt_32 toHex_def hexByte_def digitChar_def)
  moreover have "numberToString 1793514600000 = ''1793514600000''"
    by (simp add: numberToString_def decimal.simps digitChar_def)
  ultimately show ?thesis by (simp add: generateChallenge_def)
qed








section \<open>The generator\<close>

text \<open>
  C7. The generator builds the prefix \<open>xelma_auth_\<close>, the decimal timestamp, an underscore
  and the 64 hexadecimal digits of 32 random bytes, and the challenge determines both the
  timestamp and the bytes. The expiry is computed on the fields of local time, so it is
  the time of the call plus five minutes only where the zone offset does not change in
  between. Where daylight saving ends it is not: in New York on 2026-11-01 a challenge
  issued at 06:30:00 UTC (01:30 local, the repeated hour) gets the expiry 05:35:00 UTC,
  55 minutes before the call, and is stored already expired; one issued at 05:58:00 UTC
  gets an expiry 65 minutes later.
\<close>

theorem challenge_expired_at_issuance_when_daylight_saving_ends:
  "post_challenge example_services example_challenge_env_new_york example_db (Some ''GA'')
   = (\<lparr>authChallenges =
         [\<lparr>c_id = ''c2'',
           c_challenge = ''xelma_auth_1793514600000_000102030405060708090a0b0c0d0e0f101112131415161718191a1b1c1d1e1f'',
           c_walletAddress = ''GA'', c_expiresAt = 1793511300000, c_isUsed = False,
           c_usedAt = None, c_userId = None\<rparr>],
       users = []\<rparr>,
      (200, ChallengeResponse
         ''xelma_auth_1793514600000_000102030405060708090a0b0c0d0e0f101112131415161718191a1b1c1d1e1f''
         1793511300000)) \<and>
   getChallengeExpiry example_zone_new_york 1793514600000 = 1793514600000 - 55 * 60 * 1000 \<and>
   isChallengeExpired 1793514600000 1793511300000 \<and>
   getChallengeExpiry example_zone_new_york 1793512680000 = 1793512680000 + 65 * 60 * 1000"
proof -
  have a: "getChallengeExpiry example_zone_new_york 1793514600000 = 1793511300000"
    by (simp add: getChallengeExpiry_eq example_zone_new_york_def)
  have b: "getChallengeExpiry example_zone_new_york 1793512680000 = 1793512680000 + 65 * 60 * 1000"
    by (simp add: getChallengeExpiry_eq example_zone_new_york_def)
  have p: "purge_expired [example_challenge] ''GA'' 1793514600000 = []"
    by (simp add: purge_expired_filter example_challenge_def)
  have "post_challenge example_services example_challenge_env_new_york example_db (Some ''GA'')
   = (\<lparr>authChallenges =
         [\<lparr>c_id = ''c2'',
           c_challenge = ''xelma_auth_1793514600000_000102030405060708090a0b0c0d0e0f101112131415161718191a1b1c1d1e1f'',
           c_walletAddress = ''GA'', c_expiresAt = 1793511300000, c_isUsed = False,
           c_usedAt = None, c_userId = None\<rparr>],
       users = []\<rparr>,
      (200, ChallengeResponse
         ''xelma_auth_1793514600000_000102030405060708090a0b0c0d0e0f101112131415161718191a1b1c1d1e1f''
         1793511300000))"
    by (simp add: post_challenge_def example_challenge_env_new_york_def falsy_def example_services_def
        p a example_token authChallenge_create_def Let_def example_db_def)
  then show ?thesis using a b by (simp add: isChallengeExpired_def)
qed

section \<open>Verification\<close>

text \<open>
  C10. The expiry test is strict: a challenge is expired exactly when the clock is
  strictly after \<open>expiresAt\<close>, so at the instant \<open>expiresAt\<close> itself it is not expired, and
  a well-formed request for an unused challenge of the same wallet with a valid
  signature, checked at exactly \<open>expiresAt\<close>, passes every gate of the verification.
\<close>

theorem isChallengeExpired_strict:
  "(isChallengeExpired now expiresAt \<longleftrightarrow> expiresAt < now) \<and>
   \<not> isChallengeExpired expiresAt expiresAt \<and>
   (\<not> falsy (walletAddress req) \<and> \<not> falsy (challenge req) \<and> \<not> falsy (signature req) \<and>
    isValidStellarAddress srv (the (walletAddress req)) \<and>
    authChallenge_findUnique (authChallenges s) (the (challenge req)) = Some ac \<and>
    c_walletAddress ac = the (walletAddress req) \<and> \<not> c_isUsed ac \<and>
    verifySignature srv (the (walletAddress req)) (the (challenge req)) (the (signature req))
    \<longrightarrow> connect_verify srv (c_expiresAt ac) s req = Inr (ac, the (walletAddress req)))"
  by (simp add: isChallengeExpired_def connect_verify_def)

theorem isChallengeExpired_strict_witness:
  "\<not> isChallengeExpired 1000 1000 \<and>
   authChallenge_findUnique (authChallenges example_db) ''xelma_auth_1_ab'' = Some example_challenge \<and>
   connect_verify example_services 1000 example_db example_request = Inr (example_challenge, ''GA'')"
proof -
  have "connect_verify example_services (c_expiresAt example_challenge) example_db example_request
        = Inr (example_challenge, the (walletAddress example_request))"
    using isChallengeExpired_strict
      [of 1000 1000 example_request example_services example_db example_challenge] example_lookup
    by (simp add: example_request_def example_services_def falsy_def example_challenge_def)
  then show ?thesis
    using example_lookup
    by (simp add: isChallengeExpired_def example_request_def example_challenge_def)
qed

text \<open>
  C6. A connect request in which the wallet address, the challenge or the signature is
  absent (or empty), or whose wallet address the address check rejects, is answered with
  400 and a validation error, and the store is the one before the call.
\<close>

theorem post_connect_invalid_input:
  assumes "falsy (walletAddress req) \<or> falsy (challenge req) \<or> falsy (signature req) \<or>
     (\<exists>a. walletAddress req = Some a \<and> \<not> isValidStellarAddress srv a)"
  shows "\<exists>message. post_connect srv env s req = (s, (400, ErrorBody ''Validation Error'' message))"
  using assms by (auto simp: post_connect_def connect_verify_def)

theorem post_connect_invalid_input_witness:
  "falsy None \<and>
   (\<exists>message. post_connect example_services (example_env 5 ''u1'') example_db
     \<lparr>walletAddress = Some ''GA'', challenge = Some ''xelma_auth_1_ab'', signature = None\<rparr>
   = (example_db, (400, ErrorBody ''Validation Error'' message)))"
  using post_connect_invalid_input [of
      "\<lparr>walletAddress = Some ''GA'', challenge = Some ''xelma_auth_1_ab'', signature = None\<rparr>"
      example_services "example_env 5 ''u1''" example_db]
  by (simp add: falsy_def)

text \<open>
  C4. A well-formed request that presents a stored challenge of wallet \<open>A\<close> with another
  wallet address \<open>B\<close> is answered 401 "Challenge does not match wallet address" with the
  store unchanged, whatever the signature check would answer, whatever the clock reads
  and whether or not the challenge is used: the address comparison comes first.
\<close>

theorem post_connect_wallet_mismatch:
  assumes "db_ok s" and "ac \<in> set (authChallenges s)" and "c_walletAddress ac = A" and "B \<noteq> A"
    and "walletAddress req = Some B" and "challenge req = Some (c_challenge ac)"
    and "signature req = Some sg"
    and "B \<noteq> []" and "c_challenge ac \<noteq> []" and "sg \<noteq> []"
    and "isValidStellarAddress srv B"
  shows "post_connect (srv\<lparr>verifySignature := vs\<rparr>) env s req
         = (s, auth_error ''Challenge does not match wallet address'')"
  using assms findUnique_stored [OF assms(1,2)]
  by (simp add: post_connect_def connect_verify_def falsy_def)

theorem post_connect_wallet_mismatch_witness:
  "db_ok example_db \<and> example_challenge \<in> set (authChallenges example_db) \<and>
   c_walletAddress example_challenge = ''GA'' \<and>
   verifySignature example_services ''GB'' ''xelma_auth_1_ab'' ''GB:xelma_auth_1_ab'' \<and>
   post_connect (example_services\<lparr>verifySignature := verifySignature example_services\<rparr>)
     (example_env 5 ''u1'') example_db example_request_B
   = (example_db, auth_error ''Challenge does not match wallet address'')"
proof -
  have a: "c_walletAddress example_challenge = ''GA''" "''GB'' \<noteq> ''GA''"
    "walletAddress example_request_B = Some ''GB''"
    "challenge example_request_B = Some (c_challenge example_challenge)"
    "signature example_request_B = Some ''GB:xelma_auth_1_ab''"
    "''GB'' \<noteq> []" "c_challenge example_challenge \<noteq> []" "''GB:xelma_auth_1_ab'' \<noteq> []"
    "isValidStellarAddress example_services ''GB''"
    by (simp_all add: example_challenge_def example_request_B_def example_services_def)
  have v: "verifySignature example_services ''GB'' ''xelma_auth_1_ab'' ''GB:xelma_auth_1_ab''"
    by (simp add: example_services_def)
  show ?thesis
    using post_connect_wallet_mismatch [OF example_db_ok example_stored a,
        of "verifySignature example_services" "example_env 5 ''u1''"]
      example_db_ok example_stored a(1) v
    by blast
qed

text \<open>
  C3, as the claim states it, fails: a request that presents an expired challenge with
  another wallet's address is answered 401, but by the address comparison, and the
  expired record stays in the store.
\<close>

theorem expired_challenge_kept_on_wallet_mismatch:
  "c_expiresAt example_challenge < expiryNow (example_env 2000 ''u1'') \<and>
   post_connect example_services (example_env 2000 ''u1'') example_db example_request_B
   = (example_db, auth_error ''Challenge does not match wallet address'') \<and>
   authChallenge_findUnique (authChallenges example_db) ''xelma_auth_1_ab'' = Some example_challenge"
proof -
  have "connect_verify example_services 2000 example_db example_request_B
        = Inl (example_db, auth_error ''Challenge does not match wallet address'')"
    using example_lookup
    by (simp add: connect_verify_def falsy_def example_request_B_def example_services_def
        example_challenge_def)
  then have "post_connect example_services (example_env 2000 ''u1'') example_db example_request_B
        = (example_db, auth_error ''Challenge does not match wallet address'')"
    by (simp add: post_connect_def example_env_def)
  moreover have "c_expiresAt example_challenge < expiryNow (example_env 2000 ''u1'')"
    by (simp add: example_challenge_def example_env_def)
  ultimately show ?thesis using example_lookup by simp
qed

text \<open>
  C3, amended. A well-formed request that presents a stored challenge whose \<open>expiresAt\<close>
  is before the clock is answered 401 whatever the signature check would answer; when
  the request's wallet address is the challenge's, the answer is "Challenge has expired",
  the record is deleted and a lookup of its token in the resulting store finds nothing.
\<close>

theorem post_connect_expired:
  assumes "db_ok s" and "ac \<in> set (authChallenges s)" and "c_expiresAt ac < expiryNow env"
    and "walletAddress req = Some w" and "challenge req = Some (c_challenge ac)"
    and "signature req = Some sg"
    and "w \<noteq> []" and "c_challenge ac \<noteq> []" and "sg \<noteq> []"
    and "isValidStellarAddress srv w"
  shows "fst (snd (post_connect (srv\<lparr>verifySignature := vs\<rparr>) env s req)) = 401 \<and>
         (w = c_walletAddress ac \<longrightarrow>
            post_connect (srv\<lparr>verifySignature := vs\<rparr>) env s req
              = (s\<lparr>authChallenges := filter (\<lambda>c. c_id c \<noteq> c_id ac) (authChallenges s)\<rparr>,
                 auth_error ''Challenge has expired. Please request a new one.'') \<and>
            authChallenge_findUnique
              (authChallenges (fst (post_connect (srv\<lparr>verifySignature := vs\<rparr>) env s req)))
              (c_challenge ac) = None)"
proof -
  have d: "distinct (map c_challenge (authChallenges s))" using assms(1) by (simp add: db_ok_def)
  show ?thesis
    using assms findUnique_stored [OF assms(1,2)] delete_stored [OF assms(2)]
      findUnique_after_delete [OF d assms(2)]
    by (simp add: post_connect_def connect_verify_def falsy_def isChallengeExpired_def auth_error_def)
qed

theorem post_connect_expired_witness:
  "db_ok example_db \<and> example_challenge \<in> set (authChallenges example_db) \<and>
   c_expiresAt example_challenge < expiryNow (example_env 2000 ''u1'') \<and>
   post_connect (example_services\<lparr>verifySignature := verifySignature example_services\<rparr>)
     (example_env 2000 ''u1'') example_db example_request
   = (example_db\<lparr>authChallenges := []\<rparr>,
      auth_error ''Challenge has expired. Please request a new one.'') \<and>
   authChallenge_findUnique
     (authChallenges (fst (post_connect
        (example_services\<lparr>verifySignature := verifySignature example_services\<rparr>)
        (example_env 2000 ''u1'') example_db example_request)))
     (c_challenge example_challenge) = None"
proof -
  have a: "c_expiresAt example_challenge < expiryNow (example_env 2000 ''u1'')"
    "walletAddress example_request = Some ''GA''"
    "challenge example_request = Some (c_challenge example_challenge)"
    "signature example_request = Some ''GA:xelma_auth_1_ab''"
    "''GA'' \<noteq> []" "c_challenge example_challenge \<noteq> []" "''GA:xelma_auth_1_ab'' \<noteq> []"
    "isValidStellarAddress example_services ''GA''"
    by (simp_all add: example_challenge_def example_request_def example_services_def
        example_env_def)
  have w: "''GA'' = c_walletAddress example_challenge"
    by (simp add: example_challenge_def)
  have f: "filter (\<lambda>c. c_id c \<noteq> c_id example_challenge) (authChallenges example_db) = []"
    by (simp add: example_db_def)
  let ?srv = "example_services\<lparr>verifySignature := verifySignature example_services\<rparr>"
  let ?r = "post_connect ?srv (example_env 2000 ''u1'') example_db example_request"
  from post_connect_expired [OF example_db_ok example_stored a,
        of "verifySignature example_services"] w
  have "?r = (example_db\<lparr>authChallenges :=
                 filter (\<lambda>c. c_id c \<noteq> c_id example_challenge) (authChallenges example_db)\<rparr>,
              auth_error ''Challenge has expired. Please request a new one.'')"
    and n: "authChallenge_findUnique (authChallenges (fst ?r)) (c_challenge example_challenge) = None"
    by blast+
  then have "?r = (example_db\<lparr>authChallenges := []\<rparr>,
              auth_error ''Challenge has expired. Please request a new one.'')"
    by (simp only: f)
  then show ?thesis
    using n example_db_ok example_stored a(1) by blast
qed

section \<open>Issuance\<close>

text \<open>
  C5, as the claim states it, fails: the purge of the challenge handler has no test of
  \<open>isUsed\<close>, and a used, expired challenge of the requesting wallet is deleted.
\<close>

theorem used_expired_challenge_purged:
  "c_isUsed example_used_challenge \<and> c_walletAddress example_used_challenge = ''GA'' \<and>
   c_expiresAt example_used_challenge < ce_purgeNow example_challenge_env \<and>
   example_used_challenge \<in> set (authChallenges example_db_purge) \<and>
   purge_expired (authChallenges example_db_purge) ''GA'' (ce_purgeNow example_challenge_env)
     = [example_challenge_B, example_challenge_fresh] \<and>
   example_used_challenge \<notin> set (authChallenges (fst
     (post_challenge example_services example_challenge_env example_db_purge (Some ''GA''))))"
proof -
  have p: "purge_expired (authChallenges example_db_purge) ''GA'' (ce_purgeNow example_challenge_env)
     = [example_challenge_B, example_challenge_fresh]"
    by (simp add: purge_expired_def authChallenge_deleteMany_def example_db_purge_def
        example_used_challenge_def example_challenge_def example_challenge_B_def
        example_challenge_fresh_def example_challenge_env_def)
  have v: "\<not> falsy (Some ''GA'')" "isValidStellarAddress example_services ''GA''"
    by (simp_all add: falsy_def example_services_def)
  have "set (authChallenges (fst
     (post_challenge example_services example_challenge_env example_db_purge (Some ''GA''))))
     \<subseteq> {example_challenge_B, example_challenge_fresh} \<union> {c. c_id c = ''c2''}"
    using v p
    by (auto simp: post_challenge_def Let_def authChallenge_create_def example_challenge_env_def
        split: if_splits)
  moreover have "example_used_challenge \<noteq> example_challenge_B"
    "example_used_challenge \<noteq> example_challenge_fresh" "c_id example_used_challenge \<noteq> ''c2''"
    by (simp_all add: example_used_challenge_def example_challenge_def example_challenge_B_def
        example_challenge_fresh_def)
  ultimately have "example_used_challenge \<notin> set (authChallenges (fst
     (post_challenge example_services example_challenge_env example_db_purge (Some ''GA''))))"
    by blast
  moreover have "c_isUsed example_used_challenge" "c_walletAddress example_used_challenge = ''GA''"
    "c_expiresAt example_used_challenge < ce_purgeNow example_challenge_env"
    "example_used_challenge \<in> set (authChallenges example_db_purge)"
    by (simp_all add: example_used_challenge_def example_challenge_def example_challenge_env_def
        example_db_purge_def)
  ultimately show ?thesis using p by blast
qed

text \<open>
  C5, amended. For a well-formed request, the challenge table after the handler is the
  table before it without the rows of the requesting wallet whose \<open>expiresAt\<close> is before
  the clock, used or not, in the same order and unchanged, followed by at most one new
  row (the issued challenge: of this wallet, unused); every row of another wallet and
  every unexpired row is kept, and the user table is unchanged.
\<close>

theorem post_challenge_purge:
  assumes "\<not> falsy w" and "isValidStellarAddress srv (the w)"
  shows "\<exists>new. authChallenges (fst (post_challenge srv env s w))
           = filter (\<lambda>c. c_walletAddress c \<noteq> the w \<or> ce_purgeNow env \<le> c_expiresAt c)
               (authChallenges s) @ new \<and>
           length new \<le> 1 \<and>
           list_all (\<lambda>c. c_walletAddress c = the w \<and> \<not> c_isUsed c \<and>
                          c_id c = ce_newId env) new \<and>
           users (fst (post_challenge srv env s w)) = users s"
proof (cases "authChallenge_create (purge_expired (authChallenges s) (the w) (ce_purgeNow env))
     \<lparr>c_id = ce_newId env,
      c_challenge = generateChallenge (ce_timestamp env) (ce_random env),
      c_walletAddress = the w,
      c_expiresAt = getChallengeExpiry (ce_zone env) (ce_expiryNow env),
      c_isUsed = False, c_usedAt = None, c_userId = None\<rparr>")
  case None
  then have "authChallenges (fst (post_challenge srv env s w))
      = purge_expired (authChallenges s) (the w) (ce_purgeNow env) @ []"
    and "users (fst (post_challenge srv env s w)) = users s"
    using assms by (simp_all add: post_challenge_def Let_def)
  then show ?thesis
    unfolding purge_expired_filter by (intro exI [of _ "[]"]) simp
next
  case (Some cs)
  then have cs: "cs = purge_expired (authChallenges s) (the w) (ce_purgeNow env) @
     [\<lparr>c_id = ce_newId env,
      c_challenge = generateChallenge (ce_timestamp env) (ce_random env),
      c_walletAddress = the w,
      c_expiresAt = getChallengeExpiry (ce_zone env) (ce_expiryNow env),
      c_isUsed = False, c_usedAt = None, c_userId = None\<rparr>]"
    by (auto simp: authChallenge_create_def split: if_splits)
  from Some have "authChallenges (fst (post_challenge srv env s w)) = cs"
    and "users (fst (post_challenge srv env s w)) = users s"
    using assms by (simp_all add: post_challenge_def Let_def)
  then show ?thesis
    unfolding cs purge_expired_filter
    by (intro exI [of _ "[\<lparr>c_id = ce_newId env,
      c_challenge = generateChallenge (ce_timestamp env) (ce_random env),
      c_walletAddress = the w,
      c_expiresAt = getChallengeExpiry (ce_zone env) (ce_expiryNow env),
      c_isUsed = False, c_usedAt = None, c_userId = None\<rparr>]"]) simp
qed

theorem post_challenge_purge_witness:
  "\<not> falsy (Some ''GA'') \<and> isValidStellarAddress example_services (the (Some ''GA'')) \<and>
   (\<exists>new. authChallenges (fst
       (post_challenge example_services example_challenge_env example_db_purge (Some ''GA'')))
     = [example_challenge_B, example_challenge_fresh] @ new \<and> length new \<le> 1)"
proof -
  have v: "\<not> falsy (Some ''GA'')" "isValidStellarAddress example_services (the (Some ''GA''))"
    by (simp_all add: falsy_def example_services_def)
  have f: "filter (\<lambda>c. c_walletAddress c \<noteq> the (Some ''GA'') \<or>
                        ce_purgeNow example_challenge_env \<le> c_expiresAt c)
             (authChallenges example_db_purge) = [example_challenge_B, example_challenge_fresh]"
    by (simp add: example_db_purge_def example_used_challenge_def example_challenge_def
        example_challenge_B_def example_challenge_fresh_def example_challenge_env_def)
  show ?thesis
    using post_challenge_purge [OF v, of example_challenge_env example_db_purge] v
    unfolding f by blast
qed

section \<open>Successful authentication\<close>

text \<open>
  C8. When the connect handler answers 200, the request's wallet address is the wallet
  of the challenge found and the address the signature check accepted; the token is
  \<open>generateToken\<close> of the id and wallet address of the user row that the resulting
  store holds for that address (the id of the row that was there, or the new id); and
  the wallet address in the response is that address. Nothing else of the request enters
  the token.
\<close>

theorem post_connect_identity_binding:
  assumes "post_connect srv env s req = (s', (200, b))"
  shows "\<exists>w tok sg ac u.
           walletAddress req = Some w \<and> challenge req = Some tok \<and> signature req = Some sg \<and>
           authChallenge_findUnique (authChallenges s) tok = Some ac \<and> c_walletAddress ac = w \<and>
           verifySignature srv w tok sg \<and>
           user_findUnique (users s') w = Some u \<and> u_walletAddress u = w \<and>
           u_id u = (case user_findUnique (users s) w of None \<Rightarrow> newUserId env | Some u0 \<Rightarrow> u_id u0) \<and>
           b = ConnectResponse (generateToken srv (u_id u) w) (u_id u) w (u_createdAt u) (loginNow env)"
proof -
  from post_connect_success [OF assms] obtain ac w where
    v: "connect_verify srv (expiryNow env) s req = Inr (ac, w)" and
    c: "connect_commit srv env s ac w = (s', (200, b))"
    by auto
  from connect_verify_Inr [OF v] obtain tok sg where
    r: "walletAddress req = Some w" "challenge req = Some tok" "signature req = Some sg"
      "authChallenge_findUnique (authChallenges s) tok = Some ac" "c_walletAddress ac = w"
      "verifySignature srv w tok sg"
    by blast
  from connect_commit_success [OF c] obtain us u where
    up: "upsert_user (users s) w (loginNow env) (newUserId env) = Some (us, u)" and
    s': "users s' = us" and
    b: "b = ConnectResponse (generateToken srv (u_id u) (u_walletAddress u)) (u_id u)
              (u_walletAddress u) (u_createdAt u)
              (case u_lastLoginAt u of None \<Rightarrow> loginNow env | Some t \<Rightarrow> t)"
    by auto
  from upsert_user_find [OF up] have
    f: "user_findUnique us w = Some u" "u_walletAddress u = w" "u_lastLoginAt u = Some (loginNow env)"
      "u_id u = (case user_findUnique (users s) w of None \<Rightarrow> newUserId env | Some u0 \<Rightarrow> u_id u0)"
    by simp_all
  have "b = ConnectResponse (generateToken srv (u_id u) w) (u_id u) w (u_createdAt u) (loginNow env)"
    using b f(2,3) by simp
  then show ?thesis using r f s' by blast
qed

theorem post_connect_identity_binding_witness:
  "post_connect example_services (example_env 500 ''u1'') example_db example_request
     = (example_db_after, (200, ConnectResponse ''jwt.u1.GA'' ''u1'' ''GA'' 500 500)) \<and>
   (\<exists>w tok sg ac u.
      walletAddress example_request = Some w \<and> challenge example_request = Some tok \<and>
      signature example_request = Some sg \<and>
      authChallenge_findUnique (authChallenges example_db) tok = Some ac \<and> c_walletAddress ac = w \<and>
      verifySignature example_services w tok sg \<and>
      user_findUnique (users example_db_after) w = Some u \<and> u_walletAddress u = w \<and>
      u_id u = (case user_findUnique (users example_db) w of None \<Rightarrow> newUserId (example_env 500 ''u1'')
                | Some u0 \<Rightarrow> u_id u0) \<and>
      ConnectResponse ''jwt.u1.GA'' ''u1'' ''GA'' 500 500
        = ConnectResponse (generateToken example_services (u_id u) w) (u_id u) w (u_createdAt u)
            (loginNow (example_env 500 ''u1'')))"
  using example_connect post_connect_identity_binding [OF example_connect]
  by blast




section \<open>Replay\<close>

text \<open>
  C1. From a store that respects the unique columns, if the connect handler answers 200,
  then the same request run on the resulting store is answered 401, whatever the clock
  reads. If moreover the first run kept the used challenge (its clean-up reads the clock
  less than 24 hours after \<open>usedAt\<close>) and the challenge has not expired at the second run,
  the second answer is "Challenge has already been used" and the store is unchanged.
\<close>

theorem post_connect_replay:
  assumes "db_ok s" and "post_connect srv env1 s req = (s1, (200, b))"
  shows "(\<exists>message. snd (post_connect srv env2 s1 req) = auth_error message) \<and>
         (\<forall>ac. authChallenge_findUnique (authChallenges s) (the (challenge req)) = Some ac \<and>
               cleanupNow env1 - 24 * 60 * 60 * 1000 \<le> usedAtNow env1 \<and>
               expiryNow env2 \<le> c_expiresAt ac
               \<longrightarrow> post_connect srv env2 s1 req = (s1, auth_error ''Challenge has already been used''))"
proof -
  from post_connect_success [OF assms(2)] obtain ac w where
    v: "connect_verify srv (expiryNow env1) s req = Inr (ac, w)" and
    c: "connect_commit srv env1 s ac w = (s1, (200, b))"
    by auto
  from connect_verify_Inr [OF v] obtain tok sg where
    r: "walletAddress req = Some w" "challenge req = Some tok" "signature req = Some sg"
      "w \<noteq> []" "tok \<noteq> []" "sg \<noteq> []" "isValidStellarAddress srv w" and
    f: "authChallenge_findUnique (authChallenges s) tok = Some ac" and
    a: "c_walletAddress ac = w"
    by blast
  from connect_commit_success [OF c fst_conv] obtain us and u :: User where
    s1: "s1 = s\<lparr>authChallenges :=
                  purge_used (map (link_user (c_id ac) (u_id u))
                                (map (mark_used (c_id ac) (usedAtNow env1)) (authChallenges s)))
                    w (cleanupNow env1),
                users := us\<rparr>"
    by blast
  let ?g = "\<lambda>x. link_user (c_id ac) (u_id u) (mark_used (c_id ac) (usedAtNow env1) x)"
  let ?P = "\<lambda>c. \<not> (c_walletAddress c = w \<and> c_isUsed c \<and>
       (case c_usedAt c of None \<Rightarrow> False | Some t \<Rightarrow> t < cleanupNow env1 - 24 * 60 * 60 * 1000))"
  have cs1: "authChallenges s1 = filter ?P (map ?g (authChallenges s))"
    unfolding s1 by (simp add: purge_used_filter comp_def)
  have ok1: "db_ok s1"
    using post_connect_db_ok [OF assms(1), of srv env1 req] assms(2) by simp
  have ac_in: "ac \<in> set (authChallenges s)" and ac_tok: "c_challenge ac = tok"
    using f find_SomeD unfolding authChallenge_findUnique_def by fastforce+
  have d: "distinct (map c_challenge (authChallenges s))" using assms(1) by (simp add: db_ok_def)
  have g_ac: "c_walletAddress (?g ac) = w" "c_isUsed (?g ac)" "c_expiresAt (?g ac) = c_expiresAt ac"
    "c_usedAt (?g ac) = Some (usedAtNow env1)" "c_challenge (?g ac) = tok"
    using a ac_tok by (simp_all add: link_user_def mark_used_def)
  have only: "c = ?g ac" if "c \<in> set (authChallenges s1)" "c_challenge c = tok" for c
  proof -
    from that(1) obtain c0 where c0: "c0 \<in> set (authChallenges s)" "c = ?g c0"
      unfolding cs1 by auto
    then have "c_challenge c0 = tok" using that(2) by (simp add: link_user_sel mark_used_sel)
    then have "c0 = ac" using unique_token_row [OF d ac_in c0(1)] ac_tok by simp
    then show ?thesis using c0(2) by simp
  qed
  have look: "authChallenge_findUnique (authChallenges s1) tok = None \<or>
              authChallenge_findUnique (authChallenges s1) tok = Some (?g ac)"
  proof (cases "authChallenge_findUnique (authChallenges s1) tok")
    case None
    then show ?thesis by simp
  next
    case (Some c)
    then have "c \<in> set (authChallenges s1)" "c_challenge c = tok"
      using find_SomeD unfolding authChallenge_findUnique_def by fastforce+
    then show ?thesis using only Some by simp
  qed
  have first: "\<exists>message. snd (post_connect srv env2 s1 req) = auth_error message"
  proof -
    from look show ?thesis
    proof
      assume "authChallenge_findUnique (authChallenges s1) tok = None"
      from connect_verify_absent [OF r this, of "expiryNow env2"] show ?thesis
        by (auto simp: post_connect_def)
    next
      assume "authChallenge_findUnique (authChallenges s1) tok = Some (?g ac)"
      from connect_verify_used [OF r this g_ac(1,2), of "expiryNow env2"] show ?thesis
        by (auto simp: post_connect_def)
    qed
  qed
  have second: "post_connect srv env2 s1 req = (s1, auth_error ''Challenge has already been used'')"
    if h: "cleanupNow env1 - 24 * 60 * 60 * 1000 \<le> usedAtNow env1" "expiryNow env2 \<le> c_expiresAt ac"
  proof -
    have "?P (?g ac)" using g_ac(4) h(1) by simp
    then have "?g ac \<in> set (authChallenges s1)" unfolding cs1 using ac_in by simp
    then have "authChallenge_findUnique (authChallenges s1) (c_challenge (?g ac)) = Some (?g ac)"
      by (rule findUnique_stored [OF ok1])
    then have "authChallenge_findUnique (authChallenges s1) tok = Some (?g ac)"
      by (simp only: g_ac(5))
    from connect_verify_used [OF r this g_ac(1,2), of "expiryNow env2"] h(2) show ?thesis
      by (simp add: post_connect_def isChallengeExpired_def g_ac(3))
  qed
  have "the (challenge req) = tok" using r(2) by simp
  then show ?thesis using first second f by auto
qed

theorem post_connect_replay_witness:
  "db_ok example_db \<and>
   post_connect example_services (example_env 500 ''u1'') example_db example_request
     = (example_db_after, (200, ConnectResponse ''jwt.u1.GA'' ''u1'' ''GA'' 500 500)) \<and>
   post_connect example_services (example_env 600 ''u2'') example_db_after example_request
     = (example_db_after, auth_error ''Challenge has already been used'')"
proof -
  have "authChallenge_findUnique (authChallenges example_db) (the (challenge example_request))
          = Some example_challenge"
    using example_lookup by (simp add: example_request_def)
  moreover have "cleanupNow (example_env 500 ''u1'') - 24 * 60 * 60 * 1000 \<le> usedAtNow (example_env 500 ''u1'')"
    "expiryNow (example_env 600 ''u2'') \<le> c_expiresAt example_challenge"
    by (simp_all add: example_env_def example_challenge_def)
  ultimately have "post_connect example_services (example_env 600 ''u2'') example_db_after example_request
     = (example_db_after, auth_error ''Challenge has already been used'')"
    using post_connect_replay [OF example_db_ok example_connect, of "example_env 600 ''u2''"]
    by blast
  then show ?thesis using example_db_ok example_connect by blast
qed

text \<open>
  C2. Two requests with the same body are in flight on a store whose challenge is unused.
  In the schedule where each passes its checks before either marks the challenge used,
  both are answered 200 with a session token: the mark-used update is keyed by the id
  alone and the handler does not test its outcome against \<open>isUsed\<close>.
\<close>

theorem concurrent_connect_both_succeed:
  "run_schedule example_services
     [(0, example_env 500 ''u1''), (1, example_env 501 ''u2''),
      (0, example_env 500 ''u1''), (1, example_env 501 ''u2'')]
     (example_db, [Pending example_request, Pending example_request])
   = (example_db_raced,
      [Responded (200, ConnectResponse ''jwt.u1.GA'' ''u1'' ''GA'' 500 500),
       Responded (200, ConnectResponse ''jwt.u1.GA'' ''u1'' ''GA'' 500 501)])"
proof -
  have v: "connect_verify example_services 501 example_db example_request = Inr (example_challenge, ''GA'')"
    unfolding example_db_def by (rule example_verify_at) simp
  have e: "\<And>t i. expiryNow (example_env t i) = t" by (simp add: example_env_def)
  show ?thesis
    by (simp add: e example_verify v example_commit example_commit_raced)
qed

end
